theory Spec2Isabelle
  imports Main "HOL-Library.AList"
begin

section \<open>Exceptions, external calls and the effect type\<close>

text \<open>
  The uploader of \<^verbatim>\<open>template_upload/s3_docs.py\<close> talks to three collaborators that are
  not part of the repository: the S3 client of the SDK, the file system and the process
  environment. Their answers are parameters of the model (the record \<open>world\<close> below); what
  the repository's own code does with the answers is translated function by function.

  Every handler of the source is an \<^verbatim>\<open>except ClientError\<close> or an \<^verbatim>\<open>except Exception\<close>.
  An exception value is therefore either the SDK's \<^verbatim>\<open>ClientError\<close>, with the code found at
  \<^verbatim>\<open>e.response['Error']['Code']\<close> (the empty string when absent), or an instance of another
  subclass of \<^verbatim>\<open>Exception\<close>, known by its class name.
\<close>

datatype exn =
    ClientError string
  | OtherException string

text \<open>
  The calls to the collaborators that a run performs, with their arguments. A run yields
  its result together with the calls it performed, in order.
\<close>

datatype call =
    ListBuckets
  | HeadBucket string
  | CreateBucket string
  | PutObject string string string string
  | GeneratePresignedUrl string string nat
  | ReadFile string
  | PathExists string
  | PathIsDir string
  | GlobDocx string

type_synonym 'a io = "(exn + 'a) \<times> call list"

definition ret :: "'a \<Rightarrow> 'a io" where
  "ret x = (Inr x, [])"

definition perform :: "call \<Rightarrow> exn + 'a \<Rightarrow> 'a io" where
  "perform c answer = (answer, [c])"

definition bind :: "'a io \<Rightarrow> ('a \<Rightarrow> 'b io) \<Rightarrow> 'b io" where
  "bind m f =
     (case m of
        (Inl e, cs) \<Rightarrow> (Inl e, cs)
      | (Inr x, cs) \<Rightarrow> (case f x of (r, cs') \<Rightarrow> (r, cs @ cs')))"

definition try_except :: "'a io \<Rightarrow> (exn \<Rightarrow> 'a io) \<Rightarrow> 'a io" where
  "try_except m handler =
     (case m of
        (Inl e, cs) \<Rightarrow> (case handler e of (r, cs') \<Rightarrow> (r, cs @ cs'))
      | (Inr x, cs) \<Rightarrow> (Inr x, cs))"

section \<open>clear_proxy_environment\<close>

text \<open>
  \<^verbatim>\<open>os.environ\<close> is a dictionary from names to values. \<^verbatim>\<open>del os.environ[var]\<close> raises
  \<^verbatim>\<open>KeyError\<close> when the name is absent; the source guards it with \<^verbatim>\<open>if var in os.environ\<close>.
  The function returns a fixed message, which is left out: the model returns the
  environment after the call.
\<close>

type_synonym environ = "string \<rightharpoonup> string"

definition proxy_vars :: "string list" where
  "proxy_vars =
     [''HTTP_PROXY'', ''http_proxy'',
      ''HTTPS_PROXY'', ''https_proxy'',
      ''NO_PROXY'', ''no_proxy'']"

definition del_environ :: "environ \<Rightarrow> string \<Rightarrow> exn + environ" where
  "del_environ env var =
     (if var \<in> dom env then Inr (env(var := None)) else Inl (OtherException ''KeyError''))"

fun clear_loop :: "string list \<Rightarrow> environ \<Rightarrow> exn + environ" where
  "clear_loop [] env = Inr env"
| "clear_loop (var # vars) env =
     (if var \<in> dom env
      then (case del_environ env var of
              Inl e \<Rightarrow> Inl e
            | Inr env' \<Rightarrow> clear_loop vars env')
      else clear_loop vars env)"

definition clear_proxy_environment :: "environ \<Rightarrow> exn + environ" where
  "clear_proxy_environment env = clear_loop proxy_vars env"

section \<open>The uploader: configuration and collaborators\<close>

text \<open>
  The fields that \<^verbatim>\<open>DocxS3Uploader.__init__\<close> stores. The SDK configuration object and the
  logger hold no data that the results depend on; log lines are not modelled.
\<close>

record config =
  aws_access_key_id :: string
  aws_secret_access_key :: string
  endpoint_url :: string
  bucket_name :: string

text \<open>
  A file found by \<^verbatim>\<open>folder.glob("**/*.docx")\<close>. The source reads two strings off each
  \<^verbatim>\<open>Path\<close>: \<^verbatim>\<open>str(file_path)\<close> and \<^verbatim>\<open>str(file_path.relative_to(folder))\<close>. The model
  carries these two as the path library reports them, whatever the host's separator.
\<close>

record docx_path =
  path_str :: string
  relative_str :: string

text \<open>
  The answers of the collaborators. \<open>s3_client\<close> is the outcome of entering
  \<^verbatim>\<open>async with session.client('s3', ...)\<close>; the S3 operations take their keyword
  arguments in the order bucket, key, body, content type; \<open>fs_read\<close> is opening a file in
  mode \<^verbatim>\<open>'rb'\<close> and reading it whole. Building the \<^verbatim>\<open>aioboto3.Session\<close> object and the
  three path queries are taken not to raise.
\<close>

record world =
  s3_client :: "exn + unit"
  s3_list_buckets :: "exn + string list"
  s3_head_bucket :: "string \<Rightarrow> exn + unit"
  s3_create_bucket :: "string \<Rightarrow> exn + unit"
  s3_put_object :: "string \<Rightarrow> string \<Rightarrow> string \<Rightarrow> string \<Rightarrow> exn + unit"
  s3_generate_presigned_url :: "string \<Rightarrow> string \<Rightarrow> nat \<Rightarrow> exn + string"
  fs_read :: "string \<Rightarrow> exn + string"
  fs_exists :: "string \<Rightarrow> bool"
  fs_is_dir :: "string \<Rightarrow> bool"
  fs_glob_docx :: "string \<Rightarrow> docx_path list"

definition open_client :: "world \<Rightarrow> unit io" where
  "open_client w = (s3_client w, [])"

section \<open>get_file_url\<close>

definition get_file_url :: "config \<Rightarrow> world \<Rightarrow> string \<Rightarrow> string io" where
  "get_file_url cfg w object_key =
     try_except
       (bind (open_client w) (\<lambda>_.
          perform (GeneratePresignedUrl (bucket_name cfg) object_key 604800)
            (s3_generate_presigned_url w (bucket_name cfg) object_key 604800)))
       (\<lambda>e. ret (endpoint_url cfg @ ''/'' @ bucket_name cfg @ ''/'' @ object_key))"

section \<open>upload_file\<close>

text \<open>The outcome tuple \<^verbatim>\<open>(success, url)\<close>; \<^verbatim>\<open>None\<close> is \<open>None\<close>.\<close>

type_synonym outcome = "bool \<times> string option"

definition docx_content_type :: string where
  "docx_content_type =
     ''application/vnd.openxmlformats-officedocument.wordprocessingml.document''"

text \<open>\<^verbatim>\<open>os.path.basename\<close> on a POSIX host: what follows the last slash.\<close>

definition basename :: "string \<Rightarrow> string" where
  "basename p = rev (takeWhile (\<lambda>c. c \<noteq> CHR ''/'') (rev p))"

text \<open>The \<^verbatim>\<open>try\<close> block of \<^verbatim>\<open>upload_file\<close>, lines 105 to 121.\<close>

definition upload_file_try :: "config \<Rightarrow> world \<Rightarrow> string \<Rightarrow> string \<Rightarrow> outcome io" where
  "upload_file_try cfg w file_path object_name =
     bind
       (bind (open_client w) (\<lambda>_.
          bind (perform (ReadFile file_path) (fs_read w file_path)) (\<lambda>content.
            perform (PutObject (bucket_name cfg) object_name content docx_content_type)
              (s3_put_object w (bucket_name cfg) object_name content docx_content_type))))
       (\<lambda>_. bind (get_file_url cfg w object_name) (\<lambda>file_url. ret (True, Some file_url)))"

definition upload_file :: "config \<Rightarrow> world \<Rightarrow> string \<Rightarrow> string option \<Rightarrow> outcome io" where
  "upload_file cfg w file_path object_name_arg =
     (let object_name =
            (case object_name_arg of None \<Rightarrow> basename file_path | Some n \<Rightarrow> n)
      in try_except (upload_file_try cfg w file_path object_name)
           (\<lambda>e. case e of
                  ClientError code \<Rightarrow> ret (False, None)
                | OtherException name \<Rightarrow> ret (False, None)))"

section \<open>Bucket checks\<close>

text \<open>
  The three branches on the error code in \<^verbatim>\<open>check_bucket_exists\<close> differ in the line they
  log; all of them are followed by the one \<^verbatim>\<open>return False\<close>.
\<close>

definition check_bucket_exists :: "config \<Rightarrow> world \<Rightarrow> bool io" where
  "check_bucket_exists cfg w =
     try_except
       (bind (open_client w) (\<lambda>_.
          bind (perform (HeadBucket (bucket_name cfg)) (s3_head_bucket w (bucket_name cfg)))
            (\<lambda>_. ret True)))
       (\<lambda>e. case e of
              ClientError error_code \<Rightarrow>
                (if error_code = ''404'' then ret False
                 else if error_code = ''403'' then ret False
                 else ret False)
            | OtherException name \<Rightarrow> ret False)"

definition create_bucket_if_not_exists :: "config \<Rightarrow> world \<Rightarrow> bool io" where
  "create_bucket_if_not_exists cfg w =
     bind (check_bucket_exists cfg w) (\<lambda>exists.
       if exists then ret True
       else
         try_except
           (bind (open_client w) (\<lambda>_.
              bind (perform (CreateBucket (bucket_name cfg))
                      (s3_create_bucket w (bucket_name cfg)))
                (\<lambda>_. ret True)))
           (\<lambda>e. case e of
                  ClientError code \<Rightarrow> ret False
                | OtherException name \<Rightarrow> ret False))"

definition list_buckets :: "config \<Rightarrow> world \<Rightarrow> string list io" where
  "list_buckets cfg w =
     try_except
       (bind (open_client w) (\<lambda>_. perform ListBuckets (s3_list_buckets w)))
       (\<lambda>e. ret [])"

section \<open>upload_folder\<close>

text \<open>
  \<^verbatim>\<open>str.replace\<close> with one-character arguments, and the object name of lines 254 to 257:
  the prefix is put in front when it is not empty, and the replacement runs over the
  whole name, prefix included.
\<close>

definition backslash :: char where
  "backslash = CHR 0x5C"

definition replace_char :: "char \<Rightarrow> char \<Rightarrow> string \<Rightarrow> string" where
  "replace_char old new s = map (\<lambda>c. if c = old then new else c) s"

definition object_name_of :: "string \<Rightarrow> string \<Rightarrow> string" where
  "object_name_of prefix relative_path =
     replace_char backslash CHR ''/''
       (if prefix \<noteq> [] then prefix @ relative_path else relative_path)"

text \<open>
  \<^verbatim>\<open>asyncio.gather(*tasks, return_exceptions=True)\<close>: every task runs to its end, and the
  list returned holds, in the order of the tasks, the value a task returned or the
  exception it raised. The tasks share no state, so the model runs them one after the
  other; the calls of the batch are listed task by task.
\<close>

definition gather :: "'a io list \<Rightarrow> (exn + 'a) list io" where
  "gather tasks = (Inr (map fst tasks), concat (map snd tasks))"

text \<open>
  The returned dictionary, in insertion order. Assigning to a key that is present
  replaces its value in place; assigning to a new key appends.
\<close>

type_synonym upload_results = "(string \<times> outcome) list"

fun collect_results ::
  "(docx_path \<times> (exn + outcome)) list \<Rightarrow> upload_results \<Rightarrow> upload_results" where
  "collect_results [] upload_results = upload_results"
| "collect_results ((file_path, result) # rest) upload_results =
     (let str_path = path_str file_path in
      case result of
        Inl e \<Rightarrow> collect_results rest (AList.update str_path (False, None) upload_results)
      | Inr (success, url) \<Rightarrow>
          collect_results rest (AList.update str_path (success, url) upload_results))"

text \<open>Lines 248 to 282: the part of \<^verbatim>\<open>upload_folder\<close> that follows the four early returns.\<close>

definition upload_tasks :: "config \<Rightarrow> world \<Rightarrow> string \<Rightarrow> docx_path list \<Rightarrow> outcome io list" where
  "upload_tasks cfg w prefix docx_files =
     map (\<lambda>file_path.
            upload_file cfg w (path_str file_path)
              (Some (object_name_of prefix (relative_str file_path))))
       docx_files"

definition upload_all :: "config \<Rightarrow> world \<Rightarrow> string \<Rightarrow> docx_path list \<Rightarrow> upload_results io" where
  "upload_all cfg w prefix docx_files =
     bind (gather (upload_tasks cfg w prefix docx_files)) (\<lambda>results.
       ret (collect_results (zip docx_files results) []))"

definition upload_folder :: "config \<Rightarrow> world \<Rightarrow> string \<Rightarrow> string \<Rightarrow> upload_results io" where
  "upload_folder cfg w folder_path prefix =
     bind (list_buckets cfg w) (\<lambda>buckets.
       if buckets = [] then ret []
       else
         bind (if bucket_name cfg \<notin> set buckets
               then create_bucket_if_not_exists cfg w
               else ret True) (\<lambda>bucket_created.
           if \<not> bucket_created then ret []
           else
             bind (perform (PathExists folder_path) (Inr (fs_exists w folder_path)))
               (\<lambda>exists.
                 bind (if exists
                       then perform (PathIsDir folder_path) (Inr (fs_is_dir w folder_path))
                       else ret False) (\<lambda>is_dir.
                   if \<not> exists \<or> \<not> is_dir then ret []
                   else
                     bind (perform (GlobDocx folder_path) (Inr (fs_glob_docx w folder_path)))
                       (\<lambda>docx_files.
                         if docx_files = [] then ret []
                         else upload_all cfg w prefix docx_files)))))"

section \<open>Example configurations and worlds\<close>

text \<open>
  Concrete collaborators on which the theorems below are instantiated: a store where
  every call succeeds, and variants of it where one kind of call fails.
\<close>

definition example_cfg :: config where
  "example_cfg =
     \<lparr>aws_access_key_id = ''key'', aws_secret_access_key = ''secret'',
      endpoint_url = ''https://s3.firstvds.ru:443'', bucket_name = ''docs''\<rparr>"

definition example_files :: "docx_path list" where
  "example_files =
     [\<lparr>path_str = ''templates/a.docx'', relative_str = ''a.docx''\<rparr>,
      \<lparr>path_str = ''templates/sub/b.docx'', relative_str = ''sub/b.docx''\<rparr>]"

definition healthy_world :: world where
  "healthy_world =
     \<lparr>s3_client = Inr (),
      s3_list_buckets = Inr [''docs''],
      s3_head_bucket = (\<lambda>bucket. Inr ()),
      s3_create_bucket = (\<lambda>bucket. Inr ()),
      s3_put_object = (\<lambda>bucket key body content_type. Inr ()),
      s3_generate_presigned_url =
        (\<lambda>bucket key expires. Inr (''https://s3.firstvds.ru:443/'' @ bucket @ ''/'' @ key @ ''?sig'')),
      fs_read = (\<lambda>path. Inr ''PK''),
      fs_exists = (\<lambda>path. True),
      fs_is_dir = (\<lambda>path. True),
      fs_glob_docx = (\<lambda>folder. example_files)\<rparr>"

definition failing_world :: world where
  "failing_world =
     healthy_world\<lparr>s3_put_object := (\<lambda>bucket key body content_type. Inl (ClientError ''500''))\<rparr>"

definition forbidden_world :: world where
  "forbidden_world =
     healthy_world\<lparr>s3_list_buckets := Inr [''other''],
                   s3_head_bucket := (\<lambda>bucket. Inl (ClientError ''403''))\<rparr>"

definition unreadable_world :: world where
  "unreadable_world =
     healthy_world\<lparr>fs_read := (\<lambda>path. Inl (OtherException ''IOError''))\<rparr>"

definition unsigned_world :: world where
  "unsigned_world =
     healthy_world\<lparr>s3_generate_presigned_url :=
                     (\<lambda>bucket key expires. Inl (OtherException ''NoCredentialsError''))\<rparr>"

definition unreachable_world :: world where
  "unreachable_world =
     healthy_world\<lparr>s3_list_buckets := Inl (OtherException ''EndpointConnectionError'')\<rparr>"

definition flaky_world :: world where
  "flaky_world =
     healthy_world\<lparr>fs_read := (\<lambda>path. if path = ''templates/sub/b.docx''
                                      then Inl (OtherException ''FileNotFoundError'')
                                      else Inr ''PK'')\<rparr>"

definition backslash_named_file :: docx_path where
  "backslash_named_file =
     \<lparr>path_str = ''templates/sub'' @ [backslash] @ ''dir.docx'',
      relative_str = ''sub'' @ [backslash] @ ''dir.docx''\<rparr>"

definition nested_file :: docx_path where
  "nested_file =
     \<lparr>path_str = ''templates/sub/dir.docx'', relative_str = ''sub/dir.docx''\<rparr>"

definition clash_world :: world where
  "clash_world = healthy_world\<lparr>fs_glob_docx := (\<lambda>folder. [backslash_named_file, nested_file])\<rparr>"

section \<open>Properties of clear_proxy_environment\<close>

lemma clear_loop_restrict: "clear_loop vars env = Inr (env |` (- set vars))"
proof (induction vars arbitrary: env)
  case Nil
  show ?case by simp
next
  case (Cons var vars)
  have drop_var: "(env(var := None)) |` (- set vars) = env |` (- set (var # vars))"
    by (rule ext) (simp add: restrict_map_def)
  have absent: "var \<notin> dom env \<Longrightarrow> env |` (- set vars) = env |` (- set (var # vars))"
    by (rule ext) (auto simp: restrict_map_def)
  show ?case
  proof (cases "var \<in> dom env")
    case True
    then have "clear_loop (var # vars) env = clear_loop vars (env(var := None))"
      by (simp add: del_environ_def)
    also have "\<dots> = Inr ((env(var := None)) |` (- set vars))"
      by (rule Cons.IH)
    finally show ?thesis
      by (simp only: drop_var)
  next
    case False
    then have "clear_loop (var # vars) env = clear_loop vars env"
      by simp
    also have "\<dots> = Inr (env |` (- set vars))"
      by (rule Cons.IH)
    finally show ?thesis
      by (simp only: absent [OF False])
  qed
qed

text \<open>
  C9. \<^verbatim>\<open>clear_proxy_environment\<close> never fails, also when some of the six names are absent;
  the environment it leaves is the old one without the six names \<^verbatim>\<open>HTTP_PROXY\<close>,
  \<^verbatim>\<open>http_proxy\<close>, \<^verbatim>\<open>HTTPS_PROXY\<close>, \<^verbatim>\<open>https_proxy\<close>, \<^verbatim>\<open>NO_PROXY\<close>, \<^verbatim>\<open>no_proxy\<close>: these
  six are gone, every other entry is as it was; and running it on its own result gives
  that result again.
\<close>

theorem clear_proxy_environment_frame:
  "clear_proxy_environment env =
     Inr (env |` (- {''HTTP_PROXY'', ''http_proxy'', ''HTTPS_PROXY'', ''https_proxy'',
                     ''NO_PROXY'', ''no_proxy''}))
   \<and> clear_proxy_environment
        (env |` (- {''HTTP_PROXY'', ''http_proxy'', ''HTTPS_PROXY'', ''https_proxy'',
                    ''NO_PROXY'', ''no_proxy''}))
     = clear_proxy_environment env"
  by (simp add: clear_proxy_environment_def clear_loop_restrict proxy_vars_def)

section \<open>What the operations compute\<close>

lemmas io_defs = ret_def perform_def bind_def try_except_def open_client_def

lemma get_file_url_eq:
  "get_file_url cfg w k =
     (case s3_client w of
        Inl e \<Rightarrow> (Inr (endpoint_url cfg @ ''/'' @ bucket_name cfg @ ''/'' @ k), [])
      | Inr u \<Rightarrow>
          (case s3_generate_presigned_url w (bucket_name cfg) k 604800 of
             Inl e \<Rightarrow> (Inr (endpoint_url cfg @ ''/'' @ bucket_name cfg @ ''/'' @ k),
                        [GeneratePresignedUrl (bucket_name cfg) k 604800])
           | Inr url \<Rightarrow> (Inr url, [GeneratePresignedUrl (bucket_name cfg) k 604800])))"
  by (simp add: get_file_url_def io_defs split: sum.splits)

lemma get_file_url_returns: "\<exists>url. fst (get_file_url cfg w k) = Inr url"
  by (simp add: get_file_url_eq split: sum.splits)

lemma upload_file_eq:
  "upload_file cfg w f (Some k) =
     (case s3_client w of
        Inl e \<Rightarrow> (Inr (False, None), [])
      | Inr u \<Rightarrow>
         (case fs_read w f of
            Inl e \<Rightarrow> (Inr (False, None), [ReadFile f])
          | Inr content \<Rightarrow>
             (case s3_put_object w (bucket_name cfg) k content docx_content_type of
                Inl e \<Rightarrow> (Inr (False, None),
                           [ReadFile f, PutObject (bucket_name cfg) k content docx_content_type])
              | Inr u' \<Rightarrow>
                 (case get_file_url cfg w k of
                    (Inl e, cs) \<Rightarrow> (Inr (False, None),
                       [ReadFile f, PutObject (bucket_name cfg) k content docx_content_type] @ cs)
                  | (Inr url, cs) \<Rightarrow> (Inr (True, Some url),
                       [ReadFile f, PutObject (bucket_name cfg) k content docx_content_type] @ cs)))))"
  by (simp add: upload_file_def upload_file_try_def io_defs split: sum.splits prod.splits exn.splits)

lemma list_buckets_eq:
  "list_buckets cfg w =
     (case s3_client w of
        Inl e \<Rightarrow> (Inr [], [])
      | Inr u \<Rightarrow>
          (case s3_list_buckets w of
             Inl e \<Rightarrow> (Inr [], [ListBuckets])
           | Inr buckets \<Rightarrow> (Inr buckets, [ListBuckets])))"
  by (simp add: list_buckets_def io_defs split: sum.splits prod.splits)

lemma check_bucket_exists_eq:
  "check_bucket_exists cfg w =
     (case s3_client w of
        Inl e \<Rightarrow> (Inr False, [])
      | Inr u \<Rightarrow>
          (case s3_head_bucket w (bucket_name cfg) of
             Inl e \<Rightarrow> (Inr False, [HeadBucket (bucket_name cfg)])
           | Inr u' \<Rightarrow> (Inr True, [HeadBucket (bucket_name cfg)])))"
  by (simp add: check_bucket_exists_def io_defs split: sum.splits prod.splits exn.splits)

lemma create_bucket_if_not_exists_eq:
  "create_bucket_if_not_exists cfg w =
     (case s3_client w of
        Inl e \<Rightarrow> (Inr False, [])
      | Inr u \<Rightarrow>
          (case s3_head_bucket w (bucket_name cfg) of
             Inr u' \<Rightarrow> (Inr True, [HeadBucket (bucket_name cfg)])
           | Inl e \<Rightarrow>
               (case s3_create_bucket w (bucket_name cfg) of
                  Inl e' \<Rightarrow> (Inr False, [HeadBucket (bucket_name cfg), CreateBucket (bucket_name cfg)])
                | Inr u' \<Rightarrow> (Inr True, [HeadBucket (bucket_name cfg), CreateBucket (bucket_name cfg)]))))"
  by (simp add: create_bucket_if_not_exists_def check_bucket_exists_eq io_defs split: sum.splits prod.splits exn.splits)

lemma collect_results_step:
  "collect_results ((file_path, result) # rest) acc =
     collect_results rest
       (AList.update (path_str file_path)
          (case result of Inl e \<Rightarrow> (False, None) | Inr out \<Rightarrow> out) acc)"
  by (simp split: sum.splits prod.splits)

lemma collect_results_keys:
  "fst ` set (collect_results zs acc) = fst ` set acc \<union> (\<lambda>z. path_str (fst z)) ` set zs"
proof (induction zs arbitrary: acc)
  case Nil
  show ?case by simp
next
  case (Cons z zs)
  obtain file_path result where z: "z = (file_path, result)" by (cases z)
  show ?case
    unfolding z collect_results_step Cons.IH dom_update by auto
qed

lemma collect_results_distinct:
  "distinct (map fst acc) \<Longrightarrow> distinct (map fst (collect_results zs acc))"
proof (induction zs arbitrary: acc)
  case Nil
  then show ?case by simp
next
  case (Cons z zs)
  obtain file_path result where z: "z = (file_path, result)" by (cases z)
  show ?case
    unfolding z collect_results_step
    by (rule Cons.IH) (simp add: distinct_update Cons.prems)
qed

lemma update_fresh:
  "k \<notin> fst ` set al \<Longrightarrow> AList.update k v al = al @ [(k, v)]"
  by (induction al) auto

lemma collect_results_fresh:
  "distinct (map (\<lambda>z. path_str (fst z)) zs) \<Longrightarrow>
   fst ` set acc \<inter> (\<lambda>z. path_str (fst z)) ` set zs = {} \<Longrightarrow>
   collect_results zs acc =
     acc @ map (\<lambda>(file_path, result).
                 (path_str file_path,
                  case result of Inl e \<Rightarrow> (False, None) | Inr out \<Rightarrow> out)) zs"
proof (induction zs arbitrary: acc)
  case Nil
  show ?case by simp
next
  case (Cons z zs)
  obtain file_path result where z: "z = (file_path, result)" by (cases z)
  let ?v = "case result of Inl e \<Rightarrow> (False, None) | Inr out \<Rightarrow> out"
  have fresh: "path_str file_path \<notin> fst ` set acc"
    using Cons.prems(2) by (auto simp: z)
  have rest: "distinct (map (\<lambda>z. path_str (fst z)) zs)"
    using Cons.prems(1) by simp
  have disj: "fst ` set (acc @ [(path_str file_path, ?v)]) \<inter> (\<lambda>z. path_str (fst z)) ` set zs = {}"
    using Cons.prems by (auto simp: z)
  show ?case
    unfolding z collect_results_step update_fresh [OF fresh] Cons.IH [OF rest disj]
    by simp
qed


lemma upload_all_fst:
  "fst (upload_all cfg w prefix files) =
     Inr (collect_results (zip files (map fst (upload_tasks cfg w prefix files))) [])"
  by (simp add: upload_all_def gather_def io_defs)


lemma upload_folder_reaches_upload:
  assumes "fst (list_buckets cfg w) = Inr buckets" and "buckets \<noteq> []"
    and "bucket_name cfg \<in> set buckets \<or> fst (create_bucket_if_not_exists cfg w) = Inr True"
    and "fs_exists w folder_path" and "fs_is_dir w folder_path"
    and "fs_glob_docx w folder_path = docx_files" and "docx_files \<noteq> []"
  shows "fst (upload_folder cfg w folder_path prefix) = fst (upload_all cfg w prefix docx_files)"
proof -
  obtain cs where lb: "list_buckets cfg w = (Inr buckets, cs)"
    using assms(1) by (cases "list_buckets cfg w") auto
  show ?thesis
  proof (cases "bucket_name cfg \<in> set buckets")
    case True
    then show ?thesis
      using assms(2,4-7)
      by (simp add: upload_folder_def lb io_defs split: prod.splits sum.splits)
  next
    case False
    then obtain cs' where cb: "create_bucket_if_not_exists cfg w = (Inr True, cs')"
      using assms(3) by (cases "create_bucket_if_not_exists cfg w") auto
    show ?thesis
      using False assms(2,4-7)
      by (simp add: upload_folder_def lb cb io_defs split: prod.splits sum.splits)
  qed
qed

lemma collect_results_zip_keys:
  assumes "length results = length docx_files"
  shows "distinct (map fst (collect_results (zip docx_files results) []))"
    and "set (map fst (collect_results (zip docx_files results) [])) = set (map path_str docx_files)"
    and "distinct (map path_str docx_files) \<Longrightarrow>
         map fst (collect_results (zip docx_files results) []) = map path_str docx_files"
proof -
  have fsts: "map (\<lambda>z. path_str (fst z)) (zip docx_files results) = map path_str docx_files"
    using assms by (induction docx_files results rule: list_induct2') auto
  show "distinct (map fst (collect_results (zip docx_files results) []))"
    by (rule collect_results_distinct) simp
  have "fst ` set (collect_results (zip docx_files results) []) = set (map (\<lambda>z. path_str (fst z)) (zip docx_files results))"
    by (simp add: collect_results_keys)
  then show "set (map fst (collect_results (zip docx_files results) [])) = set (map path_str docx_files)"
    by (simp only: fsts set_map)
  assume "distinct (map path_str docx_files)"
  then have d: "distinct (map (\<lambda>z. path_str (fst z)) (zip docx_files results))"
    by (simp only: fsts)
  have "map fst (collect_results (zip docx_files results) []) = map (\<lambda>z. path_str (fst z)) (zip docx_files results)"
    by (simp add: collect_results_fresh [OF d] case_prod_unfold)
  then show "map fst (collect_results (zip docx_files results) []) = map path_str docx_files"
    by (simp only: fsts)
qed

lemma upload_file_eq_any:
  "upload_file cfg w f arg =
     upload_file cfg w f (Some (case arg of None \<Rightarrow> basename f | Some n \<Rightarrow> n))"
  by (simp add: upload_file_def)

lemma upload_file_None:
  "upload_file cfg w f None = upload_file cfg w f (Some (basename f))"
  by (simp add: upload_file_def)

lemma upload_folder_cases:
  "fst (upload_folder cfg w folder_path prefix) = Inr []
   \<or> fst (upload_folder cfg w folder_path prefix)
       = fst (upload_all cfg w prefix (fs_glob_docx w folder_path))"
  by (auto simp: upload_folder_def list_buckets_eq create_bucket_if_not_exists_eq io_defs
      split: sum.splits prod.splits)

lemma upload_file_returns:
  "fst (upload_file cfg w f arg) = Inr (False, None)
   \<or> (\<exists>url. fst (upload_file cfg w f arg) = Inr (True, Some url)
        \<and> fst (get_file_url cfg w (case arg of None \<Rightarrow> basename f | Some n \<Rightarrow> n)) = Inr url)"
  by (subst (1 2) upload_file_eq_any) (auto simp: upload_file_eq split: sum.splits prod.splits)


lemma update_set_subset: "set (AList.update k v al) \<subseteq> insert (k, v) (set al)"
  by (induction al) auto

lemma collect_results_entries:
  "set (collect_results zs acc)
     \<subseteq> set acc \<union> (\<lambda>(file, result).
                       (path_str file,
                        case result of Inl e \<Rightarrow> (False, None) | Inr out \<Rightarrow> out)) ` set zs"
proof (induction zs arbitrary: acc)
  case Nil
  show ?case by simp
next
  case (Cons z zs)
  obtain file_path result where z: "z = (file_path, result)" by (cases z)
  show ?case
    unfolding z collect_results_step
    using Cons.IH [of "AList.update (path_str file_path)
                         (case result of Inl e \<Rightarrow> (False, None) | Inr out \<Rightarrow> out) acc"]
      update_set_subset [of "path_str file_path"
                         "case result of Inl e \<Rightarrow> (False, None) | Inr out \<Rightarrow> out" acc]
    by auto
qed

lemma get_file_url_nonempty:
  assumes "\<And>bucket key expires url.
             s3_generate_presigned_url w bucket key expires = Inr url \<Longrightarrow> url \<noteq> []"
    and "fst (get_file_url cfg w k) = Inr url"
  shows "url \<noteq> []"
  using assms by (auto simp: get_file_url_eq split: sum.splits)



lemma clash_reaches:
  "fst (upload_folder example_cfg clash_world ''templates'' prefix)
     = fst (upload_all example_cfg clash_world prefix [backslash_named_file, nested_file])"
proof (rule upload_folder_reaches_upload)
  show "fst (list_buckets example_cfg clash_world) = Inr [''docs'']"
    by (simp add: list_buckets_eq clash_world_def healthy_world_def)
  show "[''docs''] \<noteq> ([] :: string list)"
    by simp
  show "bucket_name example_cfg \<in> set [''docs'']
      \<or> fst (create_bucket_if_not_exists example_cfg clash_world) = Inr True"
    by (simp add: example_cfg_def)
  show "fs_exists clash_world ''templates''"
    by (simp add: clash_world_def healthy_world_def)
  show "fs_is_dir clash_world ''templates''"
    by (simp add: clash_world_def healthy_world_def)
  show "fs_glob_docx clash_world ''templates'' = [backslash_named_file, nested_file]"
    by (simp add: clash_world_def healthy_world_def)
  show "[backslash_named_file, nested_file] \<noteq> []"
    by simp
qed

section \<open>The batch result has one entry per file\<close>

text \<open>
  C1. Whenever a run of \<^verbatim>\<open>upload_folder\<close> gets past its four early returns (the bucket
  list is not empty, the bucket is listed or could be created, the folder exists and is a
  directory, and the scan found files), it returns a dictionary whose keys are exactly
  the strings \<^verbatim>\<open>str(file_path)\<close> of the files found, each once; when these strings are
  pairwise different the keys are these strings in the order of discovery. The same holds
  of the aggregation loop for any list of task results of the right length, whatever
  mix of returned outcomes and raised exceptions it holds, also when every upload fails.
\<close>

theorem upload_folder_one_entry_per_file:
  assumes "fst (list_buckets cfg w) = Inr buckets" and "buckets \<noteq> []"
    and "bucket_name cfg \<in> set buckets \<or> fst (create_bucket_if_not_exists cfg w) = Inr True"
    and "fs_exists w folder_path" and "fs_is_dir w folder_path"
    and "fs_glob_docx w folder_path = docx_files" and "docx_files \<noteq> []"
  shows "(\<exists>m. fst (upload_folder cfg w folder_path prefix) = Inr m
            \<and> distinct (map fst m)
            \<and> set (map fst m) = set (map path_str docx_files)
            \<and> (distinct (map path_str docx_files) \<longrightarrow> map fst m = map path_str docx_files))
       \<and> (\<forall>results. length results = length docx_files \<longrightarrow>
            distinct (map fst (collect_results (zip docx_files results) []))
            \<and> set (map fst (collect_results (zip docx_files results) []))
                = set (map path_str docx_files))"
proof -
  let ?results = "map fst (upload_tasks cfg w prefix docx_files)"
  have len: "length ?results = length docx_files"
    by (simp add: upload_tasks_def)
  have "fst (upload_folder cfg w folder_path prefix)
          = Inr (collect_results (zip docx_files ?results) [])"
    using upload_folder_reaches_upload [OF assms] by (simp only: upload_all_fst)
  then show ?thesis
    using collect_results_zip_keys [OF len] collect_results_zip_keys(1,2) by blast
qed

theorem upload_folder_one_entry_per_file_witness:
  "fst (list_buckets example_cfg failing_world) = Inr [''docs'']
   \<and> fs_glob_docx failing_world ''templates'' = example_files
   \<and> (\<exists>m. fst (upload_folder example_cfg failing_world ''templates'' '''') = Inr m
            \<and> distinct (map fst m)
            \<and> set (map fst m) = set (map path_str example_files)
            \<and> map fst m = map path_str example_files)
   \<and> distinct (map fst (collect_results
         (zip example_files [Inl (OtherException ''A''), Inl (OtherException ''B'')]) []))"
proof -
  have h1: "fst (list_buckets example_cfg failing_world) = Inr [''docs'']"
    by (simp add: list_buckets_eq failing_world_def healthy_world_def)
  have h2: "[''docs''] \<noteq> ([] :: string list)"
    by simp
  have h3: "bucket_name example_cfg \<in> set [''docs'']
      \<or> fst (create_bucket_if_not_exists example_cfg failing_world) = Inr True"
    by (simp add: example_cfg_def)
  have h4: "fs_exists failing_world ''templates''"
    by (simp add: failing_world_def healthy_world_def)
  have h5: "fs_is_dir failing_world ''templates''"
    by (simp add: failing_world_def healthy_world_def)
  have h6: "fs_glob_docx failing_world ''templates'' = example_files"
    by (simp add: failing_world_def healthy_world_def)
  have h7: "example_files \<noteq> []"
    by (simp add: example_files_def)
  have d: "distinct (map path_str example_files)"
    by (simp add: example_files_def)
  have l: "length [Inl (OtherException ''A''), Inl (OtherException ''B'') :: exn + outcome]
             = length example_files"
    by (simp add: example_files_def)
  note one = upload_folder_one_entry_per_file [OF h1 h2 h3 h4 h5 h6 h7, of "''''"]
  have "distinct (map fst (collect_results
         (zip example_files [Inl (OtherException ''A''), Inl (OtherException ''B'')]) []))"
    using one l by blast
  then show ?thesis
    using one h1 h6 d by blast
qed

section \<open>Bucket readiness\<close>

text \<open>
  C2 as written does not hold. \<^verbatim>\<open>check_bucket_exists\<close> answers \<^verbatim>\<open>False\<close> for every fault
  of \<^verbatim>\<open>head_bucket\<close>, and \<^verbatim>\<open>create_bucket_if_not_exists\<close> sees only that answer: with
  code 403 the bucket is created all the same, and the call returns \<^verbatim>\<open>True\<close>.
\<close>

theorem create_bucket_on_403_counterexample:
  "s3_head_bucket forbidden_world (bucket_name example_cfg) = Inl (ClientError ''403'')
   \<and> create_bucket_if_not_exists example_cfg forbidden_world
       = (Inr True, [HeadBucket ''docs'', CreateBucket ''docs''])"
  by (simp add: create_bucket_if_not_exists_def check_bucket_exists_def io_defs
      forbidden_world_def healthy_world_def example_cfg_def)

text \<open>
  C2, amended. With a client at hand, \<^verbatim>\<open>create_bucket_if_not_exists\<close> returns \<^verbatim>\<open>True\<close>
  without calling \<^verbatim>\<open>create_bucket\<close> when \<^verbatim>\<open>head_bucket\<close> succeeds; when \<^verbatim>\<open>head_bucket\<close>
  faults, with code 404, code 403 or anything else, it calls \<^verbatim>\<open>create_bucket\<close> exactly
  once and returns whether that call succeeded.
\<close>

theorem create_bucket_if_not_exists_calls:
  assumes "s3_client w = Inr ()"
  shows "(s3_head_bucket w (bucket_name cfg) = Inr () \<longrightarrow>
            create_bucket_if_not_exists cfg w = (Inr True, [HeadBucket (bucket_name cfg)]))
       \<and> (isl (s3_head_bucket w (bucket_name cfg)) \<longrightarrow>
            create_bucket_if_not_exists cfg w
              = (Inr (\<not> isl (s3_create_bucket w (bucket_name cfg))),
                 [HeadBucket (bucket_name cfg), CreateBucket (bucket_name cfg)]))"
  using assms
  by (auto simp: create_bucket_if_not_exists_eq split: sum.splits)

theorem create_bucket_if_not_exists_calls_witness:
  "s3_client forbidden_world = Inr ()
   \<and> isl (s3_head_bucket forbidden_world (bucket_name example_cfg))
   \<and> create_bucket_if_not_exists example_cfg forbidden_world
       = (Inr (\<not> isl (s3_create_bucket forbidden_world (bucket_name example_cfg))),
          [HeadBucket (bucket_name example_cfg), CreateBucket (bucket_name example_cfg)])"
proof -
  have h: "s3_client forbidden_world = Inr ()"
    by (simp add: forbidden_world_def healthy_world_def)
  have f: "isl (s3_head_bucket forbidden_world (bucket_name example_cfg))"
    by (simp add: forbidden_world_def healthy_world_def)
  show ?thesis
    using create_bucket_if_not_exists_calls [OF h, of example_cfg] h f by blast
qed

section \<open>Unreadable files\<close>

text \<open>
  C3 as written does not hold. The read happens inside the \<^verbatim>\<open>try\<close> block of
  \<^verbatim>\<open>upload_file\<close>, whose last handler is \<^verbatim>\<open>except Exception\<close>: on an unreadable file
  \<^verbatim>\<open>upload_file\<close> returns \<^verbatim>\<open>(False, None)\<close> and raises nothing.
\<close>

theorem upload_file_unreadable_counterexample:
  "fs_read unreadable_world ''templates/a.docx'' = Inl (OtherException ''IOError'')
   \<and> upload_file example_cfg unreadable_world ''templates/a.docx'' None
       = (Inr (False, None), [ReadFile ''templates/a.docx''])"
  by (simp add: upload_file_def upload_file_try_def io_defs basename_def
      unreadable_world_def healthy_world_def example_cfg_def)

text \<open>
  C3, amended. When the local file is unreadable, the error of the read is caught inside
  \<^verbatim>\<open>upload_file\<close> itself: it returns \<^verbatim>\<open>(False, None)\<close> to its caller, and does so
  without calling \<^verbatim>\<open>put_object\<close>.
\<close>

theorem upload_file_catches_read_error:
  assumes "s3_client w = Inr ()" and "fs_read w file_path = Inl e"
  shows "upload_file cfg w file_path object_name = (Inr (False, None), [ReadFile file_path])"
  using assms
  by (subst upload_file_eq_any) (simp add: upload_file_eq)

theorem upload_file_catches_read_error_witness:
  "s3_client unreadable_world = Inr ()
   \<and> fs_read unreadable_world ''templates/a.docx'' = Inl (OtherException ''IOError'')
   \<and> upload_file example_cfg unreadable_world ''templates/a.docx'' (Some ''a.docx'')
       = (Inr (False, None), [ReadFile ''templates/a.docx''])"
proof -
  have h1: "s3_client unreadable_world = Inr ()"
    by (simp add: unreadable_world_def healthy_world_def)
  have h2: "fs_read unreadable_world ''templates/a.docx'' = Inl (OtherException ''IOError'')"
    by (simp add: unreadable_world_def healthy_world_def)
  show ?thesis
    using upload_file_catches_read_error [OF h1 h2, of example_cfg "Some ''a.docx''"] h1 h2
    by blast
qed

section \<open>No exception escapes\<close>



section \<open>URL resolution\<close>

text \<open>
  C5. \<^verbatim>\<open>get_file_url\<close> always returns a string. When the client cannot be entered or
  \<^verbatim>\<open>generate_presigned_url\<close> faults, the string is the endpoint, a slash, the bucket, a
  slash and the object key.
\<close>

theorem get_file_url_total:
  "(\<exists>url. fst (get_file_url cfg w object_key) = Inr url)
   \<and> (isl (s3_client w) \<or> isl (s3_generate_presigned_url w (bucket_name cfg) object_key 604800)
        \<longrightarrow> fst (get_file_url cfg w object_key)
             = Inr (endpoint_url cfg @ ''/'' @ bucket_name cfg @ ''/'' @ object_key))"
  by (auto simp: get_file_url_eq split: sum.splits)

theorem get_file_url_total_witness:
  "isl (s3_generate_presigned_url unsigned_world (bucket_name example_cfg) ''sub/b.docx'' 604800)
   \<and> fst (get_file_url example_cfg unsigned_world ''sub/b.docx'')
       = Inr ''https://s3.firstvds.ru:443/docs/sub/b.docx''"
proof -
  have h: "isl (s3_generate_presigned_url unsigned_world (bucket_name example_cfg) ''sub/b.docx'' 604800)"
    by (simp add: unsigned_world_def healthy_world_def)
  have "fst (get_file_url example_cfg unsigned_world ''sub/b.docx'')
       = Inr (endpoint_url example_cfg @ ''/'' @ bucket_name example_cfg @ ''/'' @ ''sub/b.docx'')"
    using get_file_url_total [of example_cfg unsigned_world "''sub/b.docx''"] h by blast
  then show ?thesis
    using h by (simp add: example_cfg_def)
qed

section \<open>Object names\<close>



section \<open>Outcome shapes\<close>

text \<open>
  C7. Provided the SDK's presigned URLs are non-empty strings, every outcome of
  \<^verbatim>\<open>upload_file\<close> and every entry of the dictionary returned by \<^verbatim>\<open>upload_folder\<close> is
  either \<^verbatim>\<open>True\<close> with a non-empty URL or \<^verbatim>\<open>False\<close> with \<^verbatim>\<open>None\<close>; \<^verbatim>\<open>False\<close> is never
  paired with a URL.
\<close>

theorem outcome_shapes:
  assumes "\<And>bucket key expires url.
             s3_generate_presigned_url w bucket key expires = Inr url \<Longrightarrow> url \<noteq> []"
  shows "(fst (upload_file cfg w file_path object_name) = Inr (False, None)
          \<or> (\<exists>url. url \<noteq> [] \<and> fst (upload_file cfg w file_path object_name) = Inr (True, Some url)))
       \<and> (\<forall>m. fst (upload_folder cfg w folder_path prefix) = Inr m \<longrightarrow>
             (\<forall>(path, success, url) \<in> set m.
                 (success \<and> (\<exists>u. url = Some u \<and> u \<noteq> [])) \<or> (\<not> success \<and> url = None)))"
proof -
  have single: "fst (upload_file cfg w f arg) = Inr (False, None)
          \<or> (\<exists>url. url \<noteq> [] \<and> fst (upload_file cfg w f arg) = Inr (True, Some url))" for f arg
  proof (cases "fst (upload_file cfg w f arg) = Inr (False, None)")
    case True
    then show ?thesis by simp
  next
    case False
    then obtain url where up: "fst (upload_file cfg w f arg) = Inr (True, Some url)"
      and gu: "fst (get_file_url cfg w (case arg of None \<Rightarrow> basename f | Some n \<Rightarrow> n)) = Inr url"
      using upload_file_returns [of cfg w f arg] by blast
    have "url \<noteq> []"
      using assms gu by (rule get_file_url_nonempty)
    then show ?thesis
      using up by simp
  qed
  have batch: "(success \<and> (\<exists>u. url = Some u \<and> u \<noteq> [])) \<or> (\<not> success \<and> url = None)"
    if m: "fst (upload_folder cfg w folder_path prefix) = Inr m"
      and entry: "(path, success, url) \<in> set m" for m path success url
  proof -
    let ?files = "fs_glob_docx w folder_path"
    let ?results = "map fst (upload_tasks cfg w prefix ?files)"
    have "m \<noteq> []"
      using entry by auto
    then have "fst (upload_folder cfg w folder_path prefix) \<noteq> Inr []"
      using m by simp
    then have "fst (upload_folder cfg w folder_path prefix)
                 = fst (upload_all cfg w prefix ?files)"
      using upload_folder_cases [of cfg w folder_path prefix] by blast
    then have meq: "m = collect_results (zip ?files ?results) []"
      using m by (simp add: upload_all_fst)
    have "set m \<subseteq> (\<lambda>(f, result).
                       (path_str f,
                        case result of Inl e \<Rightarrow> (False, None) | Inr out \<Rightarrow> out))
                   ` set (zip ?files ?results)"
      unfolding meq using collect_results_entries [of "zip ?files ?results" "[]"] by simp
    then have "(path, success, url) \<in> (\<lambda>(f, result).
                       (path_str f,
                        case result of Inl e \<Rightarrow> (False, None) | Inr out \<Rightarrow> out))
                   ` set (zip ?files ?results)"
      using entry by (rule subsetD)
    then obtain f result where zr: "(f, result) \<in> set (zip ?files ?results)"
        and out: "(success, url) = (case result of Inl e \<Rightarrow> (False, None) | Inr out \<Rightarrow> out)"
      by (auto simp: image_iff)
    from zr have "result \<in> set ?results"
      by (rule set_zip_rightD)
    then obtain p arg where res: "result = fst (upload_file cfg w p arg)"
      unfolding upload_tasks_def by (auto simp: image_iff)
    from single [of p arg] show ?thesis
    proof
      assume "fst (upload_file cfg w p arg) = Inr (False, None)"
      then show ?thesis
        using out res by simp
    next
      assume "\<exists>u. u \<noteq> [] \<and> fst (upload_file cfg w p arg) = Inr (True, Some u)"
      then obtain u where "u \<noteq> []" and "result = Inr (True, Some u)"
        using res by auto
      then show ?thesis
        using out by simp
    qed
  qed
  show ?thesis
    using single batch by blast
qed

theorem outcome_shapes_witness:
  "(\<exists>url. url \<noteq> [] \<and> fst (upload_file example_cfg flaky_world ''templates/a.docx'' None)
                          = Inr (True, Some url))
   \<and> fst (upload_file example_cfg flaky_world ''templates/sub/b.docx'' None) = Inr (False, None)"
proof -
  have signed: "url \<noteq> []"
    if "s3_generate_presigned_url flaky_world bucket key expires = Inr url"
    for bucket key expires url
    using that by (auto simp: flaky_world_def healthy_world_def)
  have a: "fst (upload_file example_cfg flaky_world ''templates/a.docx'' None) \<noteq> Inr (False, None)"
    by (simp add: upload_file_None upload_file_eq get_file_url_eq basename_def
        flaky_world_def healthy_world_def example_cfg_def)
  have b: "fst (upload_file example_cfg flaky_world ''templates/sub/b.docx'' None) = Inr (False, None)"
    by (simp add: upload_file_None upload_file_eq get_file_url_eq basename_def
        flaky_world_def healthy_world_def example_cfg_def)
  have "fst (upload_file example_cfg flaky_world ''templates/a.docx'' None) = Inr (False, None)
        \<or> (\<exists>url. url \<noteq> [] \<and> fst (upload_file example_cfg flaky_world ''templates/a.docx'' None)
                                 = Inr (True, Some url))"
    by (rule conjunct1 [OF outcome_shapes [of flaky_world example_cfg "''templates/a.docx''" None]])
       (rule signed)
  then show ?thesis
    using a b by blast
qed

section \<open>No buckets, no work\<close>

text \<open>
  C8. When \<^verbatim>\<open>list_buckets\<close> yields the empty list, \<^verbatim>\<open>upload_folder\<close> returns the empty
  dictionary and raises nothing, and the calls of the whole run are those of
  \<^verbatim>\<open>list_buckets\<close>: at most the one \<^verbatim>\<open>ListBuckets\<close> request, no bucket check or creation,
  no path query, no scan and no file read.
\<close>

theorem upload_folder_no_buckets:
  assumes "fst (list_buckets cfg w) = Inr []"
  shows "fst (upload_folder cfg w folder_path prefix) = Inr []
       \<and> snd (upload_folder cfg w folder_path prefix) = snd (list_buckets cfg w)
       \<and> set (snd (upload_folder cfg w folder_path prefix)) \<subseteq> {ListBuckets}"
proof -
  obtain cs where lb: "list_buckets cfg w = (Inr [], cs)"
    using assms by (cases "list_buckets cfg w") auto
  have cs: "set cs \<subseteq> {ListBuckets}"
    using lb by (auto simp: list_buckets_eq split: sum.splits)
  have "upload_folder cfg w folder_path prefix = (Inr [], cs)"
    by (simp add: upload_folder_def lb bind_def ret_def)
  then show ?thesis
    using lb cs by simp
qed

theorem upload_folder_no_buckets_witness:
  "fst (list_buckets example_cfg unreachable_world) = Inr []
   \<and> upload_folder example_cfg unreachable_world ''templates'' ''out/'' = (Inr [], [ListBuckets])"
proof -
  have h: "fst (list_buckets example_cfg unreachable_world) = Inr []"
    by (simp add: list_buckets_eq unreachable_world_def healthy_world_def)
  have t: "snd (list_buckets example_cfg unreachable_world) = [ListBuckets]"
    by (simp add: list_buckets_eq unreachable_world_def healthy_world_def)
  have "fst (upload_folder example_cfg unreachable_world ''templates'' ''out/'') = Inr []
      \<and> snd (upload_folder example_cfg unreachable_world ''templates'' ''out/'') = [ListBuckets]"
    using upload_folder_no_buckets [OF h, of "''templates''" "''out/''"] t by simp
  then show ?thesis
    using h by (simp add: prod_eq_iff)
qed

section \<open>Colliding object names\<close>

text \<open>
  C10. The object name is not injective in the file. A folder holding a file whose name
  is \<^verbatim>\<open>sub\dir.docx\<close> and a file \<^verbatim>\<open>dir.docx\<close> in the directory \<^verbatim>\<open>sub\<close> yields two
  different local paths with the same object name, for every prefix; the returned
  dictionary has one entry for each of the two paths, both leading to the one object.
\<close>

theorem object_key_not_injective:
  "fs_glob_docx clash_world ''templates'' = [backslash_named_file, nested_file]
   \<and> path_str backslash_named_file \<noteq> path_str nested_file
   \<and> relative_str backslash_named_file \<noteq> relative_str nested_file
   \<and> object_name_of prefix (relative_str backslash_named_file)
       = object_name_of prefix (relative_str nested_file)
   \<and> object_name_of '''' (relative_str nested_file) = ''sub/dir.docx''
   \<and> fst (upload_folder example_cfg clash_world ''templates'' '''')
       = Inr [(path_str backslash_named_file,
               True, Some ''https://s3.firstvds.ru:443/docs/sub/dir.docx?sig''),
              (path_str nested_file,
               True, Some ''https://s3.firstvds.ru:443/docs/sub/dir.docx?sig'')]"
proof -
  have a: "fs_glob_docx clash_world ''templates'' = [backslash_named_file, nested_file]"
    by (simp add: clash_world_def healthy_world_def)
  have b: "path_str backslash_named_file \<noteq> path_str nested_file"
    by (simp add: backslash_named_file_def nested_file_def backslash_def)
  have c: "relative_str backslash_named_file \<noteq> relative_str nested_file"
    by (simp add: backslash_named_file_def nested_file_def backslash_def)
  have d: "object_name_of prefix (relative_str backslash_named_file)
       = object_name_of prefix (relative_str nested_file)"
    by (simp add: object_name_of_def replace_char_def backslash_named_file_def nested_file_def
        backslash_def)
  have e: "object_name_of '''' (relative_str nested_file) = ''sub/dir.docx''"
    by (simp add: object_name_of_def replace_char_def nested_file_def backslash_def)
  have f: "fst (upload_folder example_cfg clash_world ''templates'' '''')
       = Inr [(path_str backslash_named_file,
               True, Some ''https://s3.firstvds.ru:443/docs/sub/dir.docx?sig''),
              (path_str nested_file,
               True, Some ''https://s3.firstvds.ru:443/docs/sub/dir.docx?sig'')]"
    unfolding clash_reaches upload_all_fst
    by (simp add: upload_tasks_def upload_file_eq get_file_url_eq
        object_name_of_def replace_char_def backslash_def
        backslash_named_file_def nested_file_def
        clash_world_def healthy_world_def example_cfg_def)
  show ?thesis
    using a b c d e f by blast
qed

theorem object_key_not_injective_witness:
  "path_str backslash_named_file \<noteq> path_str nested_file
   \<and> object_name_of ''out/'' (relative_str backslash_named_file) = ''out/sub/dir.docx''
   \<and> object_name_of ''out/'' (relative_str nested_file) = ''out/sub/dir.docx''"
proof -
  have k: "object_name_of ''out/'' (relative_str nested_file) = ''out/sub/dir.docx''"
    by (simp add: object_name_of_def replace_char_def nested_file_def backslash_def)
  show ?thesis
    using object_key_not_injective [of "''out/''"] k by simp
qed

end
